theory Spec2Isabelle
  imports Main "HOL-Library.Word" "HOL-Library.AList"
begin

section \<open>Strings, regular-expression tests and dropped files\<close>

text \<open>
  The ingestion pipeline of the mod manager lives in the add-mods page: \<open>detectSource\<close>
  classifies the dropped files and \<open>finalize\<close> stages the classified source on disk.
  The metadata record comes from \<open>validateAndGet\<close> of the metadata form.

  A JavaScript string is modelled as a \<open>string\<close> whose characters are the UTF-16 code
  units below 256; a \<open>Uint8Array\<close> is a list of 8-bit words.
\<close>

type_synonym bytes = "8 word list"

text \<open>
  Case-insensitive matching of a regular expression without the \<open>u\<close> flag never
  identifies a non-ASCII code unit with an ASCII one, so for the ASCII patterns of the source
  the \<open>i\<close> flag folds exactly \<open>A\<close>..\<open>Z\<close> onto \<open>a\<close>..\<open>z\<close>.
\<close>

definition ascii_upper :: string where
  "ascii_upper = ''ABCDEFGHIJKLMNOPQRSTUVWXYZ''"

definition ascii_lower :: string where
  "ascii_lower = ''abcdefghijklmnopqrstuvwxyz''"

definition lower_char :: "char \<Rightarrow> char" where
  "lower_char c = (case map_of (zip ascii_upper ascii_lower) c of Some l \<Rightarrow> l | None \<Rightarrow> c)"

text \<open>
  \<open>String.prototype.toLowerCase\<close> on code units below 256: the ASCII capitals and the
  Latin-1 capitals \<open>0xC0\<close>..\<open>0xDE\<close> (without the multiplication sign \<open>0xD7\<close>) move up by 32.
\<close>

definition latin1_upper :: string where
  "latin1_upper =
     [CHR 0xC0, CHR 0xC1, CHR 0xC2, CHR 0xC3, CHR 0xC4, CHR 0xC5, CHR 0xC6, CHR 0xC7,
      CHR 0xC8, CHR 0xC9, CHR 0xCA, CHR 0xCB, CHR 0xCC, CHR 0xCD, CHR 0xCE, CHR 0xCF,
      CHR 0xD0, CHR 0xD1, CHR 0xD2, CHR 0xD3, CHR 0xD4, CHR 0xD5, CHR 0xD6, CHR 0xD8,
      CHR 0xD9, CHR 0xDA, CHR 0xDB, CHR 0xDC, CHR 0xDD, CHR 0xDE]"

definition latin1_lower :: string where
  "latin1_lower =
     [CHR 0xE0, CHR 0xE1, CHR 0xE2, CHR 0xE3, CHR 0xE4, CHR 0xE5, CHR 0xE6, CHR 0xE7,
      CHR 0xE8, CHR 0xE9, CHR 0xEA, CHR 0xEB, CHR 0xEC, CHR 0xED, CHR 0xEE, CHR 0xEF,
      CHR 0xF0, CHR 0xF1, CHR 0xF2, CHR 0xF3, CHR 0xF4, CHR 0xF5, CHR 0xF6, CHR 0xF8,
      CHR 0xF9, CHR 0xFA, CHR 0xFB, CHR 0xFC, CHR 0xFD, CHR 0xFE]"

definition toLowerCase :: "string \<Rightarrow> string" where
  "toLowerCase s =
     map (\<lambda>c. case map_of (zip (ascii_upper @ latin1_upper) (ascii_lower @ latin1_lower)) c of
                 Some l \<Rightarrow> l
               | None \<Rightarrow> c) s"

text \<open>\<open>s.endsWith(suf)\<close>.\<close>

definition endsWith :: "string \<Rightarrow> string \<Rightarrow> bool" where
  "endsWith s suf = (length suf \<le> length s \<and> drop (length s - length suf) s = suf)"

text \<open>
  \<open>s.match(/(alt1|alt2|...)$/i)\<close> for literal alternatives: the matched text
  (\<open>match[0]\<close>, in the case of the subject) or \<open>None\<close> for \<open>null\<close>. The alternatives used in
  the source begin with a dot and contain no other dot, so at most one of them matches.
\<close>

definition match_suffix_i :: "string list \<Rightarrow> string \<Rightarrow> string option" where
  "match_suffix_i alts s =
     (case filter (\<lambda>a. endsWith (map lower_char s) a) alts of
        [] \<Rightarrow> None
      | a # _ \<Rightarrow> Some (drop (length s - length a) s))"

text \<open>\<open>/\.vpk$/i.test(s)\<close>\<close>

definition is_vpk :: "string \<Rightarrow> bool" where
  "is_vpk s = (match_suffix_i [''.vpk''] s \<noteq> None)"

text \<open>\<open>/\.(zip|rar|7z)$/i.test(s)\<close>\<close>

definition is_archive :: "string \<Rightarrow> bool" where
  "is_archive s = (match_suffix_i [''.zip'', ''.rar'', ''.7z''] s \<noteq> None)"

text \<open>
  \<open>s.split(c)\<close> for a one-character separator: never empty, the empty string splits into
  one empty segment.
\<close>

fun split_on :: "char \<Rightarrow> string \<Rightarrow> string list" where
  "split_on c [] = [[]]"
| "split_on c (x # xs) =
     (if x = c then [] # split_on c xs
      else (case split_on c xs of
              [] \<Rightarrow> [[x]]
            | seg # rest \<Rightarrow> (x # seg) # rest))"

text \<open>
  A browser \<open>File\<close>: its base name, its \<open>webkitRelativePath\<close> (the empty string unless the
  file came from a folder), and its bytes (\<open>toBytes\<close> reads them).
\<close>

record File =
  name :: string
  webkitRelativePath :: string
  toBytes :: bytes

text \<open>\<open>const fileName = (file) => file.webkitRelativePath || file.name\<close>\<close>

definition fileName :: "File \<Rightarrow> string" where
  "fileName f = (if webkitRelativePath f \<noteq> [] then webkitRelativePath f else name f)"

section \<open>The source classifier\<close>

datatype detected_source =
    Archive File
  | Vpk File
  | Folder_Vpk "File list" "string option"

text \<open>\<open>files.filter(Boolean)\<close>: every \<open>File\<close> object is truthy.\<close>

definition truthy :: "File \<Rightarrow> bool" where
  "truthy f = True"

definition detectSource :: "File list \<Rightarrow> detected_source option" where
  "detectSource files =
     (if length files = 0 then None
      else
        let flat = filter truthy files;
            vpk = find (\<lambda>f. is_vpk (name f)) flat
        in case (length flat = 1, vpk) of
             (True, Some v) \<Rightarrow> Some (Vpk v)
           | _ \<Rightarrow>
             (let archive = find (\<lambda>f. is_archive (name f)) flat
              in case (length flat = 1, archive) of
                   (True, Some a) \<Rightarrow> Some (Archive a)
                 | _ \<Rightarrow>
                   (let anyVpk = filter (\<lambda>f. is_vpk (name f)) flat
                    in case anyVpk of
                         [] \<Rightarrow> None
                       | first # _ \<Rightarrow>
                           (let rel = webkitRelativePath first;
                                folderName = (if rel \<noteq> [] then Some (hd (split_on CHR ''/'' rel))
                                              else None)
                            in Some (Folder_Vpk anyVpk folderName)))))"

section \<open>The environment and the world\<close>

text \<open>
  Paths are sequences of segments; \<open>join(dir, seg)\<close> is the child of \<open>dir\<close> named \<open>seg\<close>.
  Every name joined in \<open>finalize\<close> is a base name: a \<open>File\<close>'s \<open>name\<close>, a constant, or the
  last \<open>/\<close>-segment of an archive entry's name.
\<close>

type_synonym path = "string list"

definition join :: "path \<Rightarrow> string \<Rightarrow> path" where
  "join dir seg = dir @ [seg]"

text \<open>The calls into the file-system plugin, and what can be thrown inside \<open>finalize\<close>.\<close>

datatype fs_op = Exists path | Mkdir path | Write_File path | Read_Dir path

datatype exn =
    Io_Error fs_op
  | No_Vpk_In_Folder
  | Zip_Load_Error
  | Zip_Entry_Error

text \<open>
  The notifications of the page, by their message:
  \<open>Url_Flow_Handled\<close> is "URL flow is handled by the API pipeline.",
  \<open>No_Files_Detected\<close> is "No files detected.",
  \<open>No_Vpk_Inside_Zip\<close> is "No .vpk found inside .zip - stored archive for installer",
  \<open>Failed_To_Process_Archive\<close> is "Failed to process archive",
  \<open>Added_Mod n\<close> is "Added: n".
\<close>

datatype message =
    Url_Flow_Handled
  | No_Files_Detected
  | No_Vpk_Inside_Zip
  | Failed_To_Process_Archive
  | Added_Mod string

datatype toast = Toast_Info message | Toast_Error message | Toast_Success message

text \<open>An entry of \<open>zip.files\<close>: its name, its \<open>dir\<close> flag and what \<open>async('uint8array')\<close>
  resolves to (\<open>None\<close> when decompression rejects).\<close>

record zip_object =
  zname :: string
  zdir :: bool
  zdata :: "bytes option"

text \<open>
  What \<open>finalize\<close> takes from outside the repository: the UUID drawn by
  \<open>crypto.randomUUID()\<close>, the clock's \<open>toISOString()\<close>, the application data directory,
  the platform's \<open>localeCompare\<close>, the archive library (\<open>loadAsync\<close> followed by
  \<open>Object.values(zip.files)\<close>; \<open>None\<close> when loading rejects), the URL test of the form's
  schema, and which call into the file system fails: \<open>io_fails env k op\<close> says that
  \<open>op\<close>, issued as the \<open>k\<close>-th call, is rejected.
\<close>

record env =
  randomUUID :: string
  toISOString :: string
  appLocalDataDir :: path
  localeCompare :: "string \<Rightarrow> string \<Rightarrow> int"
  loadAsync :: "bytes \<Rightarrow> zip_object list option"
  valid_url :: "string \<Rightarrow> bool"
  io_fails :: "nat \<Rightarrow> fs_op \<Rightarrow> bool"

text \<open>The entry handed to \<open>addMod\<close>, with the path and status stored beside it.\<close>

datatype mod_status = DOWNLOADED

record mod_dto =
  remoteId :: string
  dto_name :: string
  dto_description :: string
  remoteUrl :: string
  dto_author :: string
  downloadable :: bool
  remoteAddedAt :: string
  remoteUpdatedAt :: string
  tags :: "string list"
  downloadCount :: nat
  likes :: nat
  dto_category :: string
  dto_path :: path
  dto_status :: mod_status

text \<open>
  The world \<open>finalize\<close> acts on: the directories and files on disk, the log of the calls
  into the file system with their success, the notifications shown, the library of the
  persisted store and whether the dialog is open.
\<close>

record world =
  fs_dirs :: "path list"
  fs_files :: "(path \<times> bytes) list"
  fs_log :: "(fs_op \<times> bool) list"
  toasts :: "toast list"
  library :: "mod_dto list"
  dialog_open :: bool

text \<open>An asynchronous computation: it throws (\<open>Inl\<close>) or returns (\<open>Inr\<close>), and changes the world.\<close>

type_synonym 'a io = "world \<Rightarrow> (exn + 'a) \<times> world"

definition return_io :: "'a \<Rightarrow> 'a io" where
  "return_io a w = (Inr a, w)"

definition throw :: "exn \<Rightarrow> 'a io" where
  "throw e w = (Inl e, w)"

definition bind_io :: "'a io \<Rightarrow> ('a \<Rightarrow> 'b io) \<Rightarrow> 'b io" where
  "bind_io m f w = (case m w of (Inl e, w') \<Rightarrow> (Inl e, w') | (Inr a, w') \<Rightarrow> f a w')"

definition try_catch :: "'a io \<Rightarrow> (exn \<Rightarrow> 'a io) \<Rightarrow> 'a io" where
  "try_catch m h w = (case m w of (Inl e, w') \<Rightarrow> h e w' | (Inr a, w') \<Rightarrow> (Inr a, w'))"

definition toast_io :: "toast \<Rightarrow> unit io" where
  "toast_io t w = (Inr (), w\<lparr>toasts := toasts w @ [t]\<rparr>)"

subsection \<open>The file-system plugin\<close>

text \<open>Every call is logged; a rejected call throws and changes nothing else.\<close>

definition fs_call :: "env \<Rightarrow> fs_op \<Rightarrow> unit io" where
  "fs_call env op w =
     (if io_fails env (length (fs_log w)) op
      then (Inl (Io_Error op), w\<lparr>fs_log := fs_log w @ [(op, False)]\<rparr>)
      else (Inr (), w\<lparr>fs_log := fs_log w @ [(op, True)]\<rparr>))"

definition exists_fs :: "env \<Rightarrow> path \<Rightarrow> bool io" where
  "exists_fs env abs_path =
     bind_io (fs_call env (Exists abs_path))
       (\<lambda>_ w. (Inr (abs_path \<in> set (fs_dirs w) \<or> abs_path \<in> set (map fst (fs_files w))), w))"

fun path_prefixes :: "path \<Rightarrow> path list" where
  "path_prefixes [] = []"
| "path_prefixes (x # xs) = [x] # map ((#) x) (path_prefixes xs)"

text \<open>\<open>mkdir(abs, { recursive: true })\<close> creates the directory and its missing ancestors.\<close>

definition mkdir :: "env \<Rightarrow> path \<Rightarrow> unit io" where
  "mkdir env abs_path =
     bind_io (fs_call env (Mkdir abs_path))
       (\<lambda>_ w. (Inr (), w\<lparr>fs_dirs := fs_dirs w @
                                filter (\<lambda>d. d \<notin> set (fs_dirs w)) (path_prefixes abs_path)\<rparr>))"

definition writeFile :: "env \<Rightarrow> path \<Rightarrow> bytes \<Rightarrow> unit io" where
  "writeFile env abs_path data =
     bind_io (fs_call env (Write_File abs_path))
       (\<lambda>_ w. (Inr (), w\<lparr>fs_files := AList.update abs_path data (fs_files w)\<rparr>))"

text \<open>The names of the entries directly inside a directory.\<close>

definition dir_entries :: "world \<Rightarrow> path \<Rightarrow> string list" where
  "dir_entries w dir =
     remdups (map last (filter (\<lambda>p. p \<noteq> [] \<and> butlast p = dir)
                          (map fst (fs_files w) @ fs_dirs w)))"

definition readDir :: "env \<Rightarrow> path \<Rightarrow> string list io" where
  "readDir env dir =
     bind_io (fs_call env (Read_Dir dir)) (\<lambda>_ w. (Inr (dir_entries w dir), w))"

text \<open>\<open>new TextEncoder().encode(text)\<close>: UTF-8 of code units below 256.\<close>

definition encode :: "string \<Rightarrow> bytes" where
  "encode text =
     concat (map (\<lambda>c. let n = (of_char c :: nat) in
                    if n < 128 then [of_nat n]
                    else [of_nat (192 + n div 64), of_nat (128 + n mod 64)]) text)"

text \<open>The helpers of the page.\<close>

definition ensureDir :: "env \<Rightarrow> path \<Rightarrow> unit io" where
  "ensureDir env abs_path =
     bind_io (exists_fs env abs_path) (\<lambda>e. if \<not> e then mkdir env abs_path else return_io ())"

definition writeBytes :: "env \<Rightarrow> path \<Rightarrow> bytes \<Rightarrow> unit io" where
  "writeBytes env abs_path data = writeFile env abs_path data"

definition writeText :: "env \<Rightarrow> path \<Rightarrow> string \<Rightarrow> unit io" where
  "writeText env abs_path text = writeFile env abs_path (encode text)"

subsection \<open>Sorting\<close>

text \<open>
  \<open>Array.prototype.sort(cmp)\<close> is stable; for a consistent comparator its result is that of
  stable insertion: an element moves in front of the first later element it does not
  exceed.
\<close>

fun insert_by :: "('a \<Rightarrow> 'a \<Rightarrow> int) \<Rightarrow> 'a \<Rightarrow> 'a list \<Rightarrow> 'a list" where
  "insert_by cmp x [] = [x]"
| "insert_by cmp x (y # ys) = (if cmp x y \<le> 0 then x # y # ys else y # insert_by cmp x ys)"

definition sort_by :: "('a \<Rightarrow> 'a \<Rightarrow> int) \<Rightarrow> 'a list \<Rightarrow> 'a list" where
  "sort_by cmp xs = foldr (insert_by cmp) xs []"

subsection \<open>JSON\<close>

datatype json = JString string | JNumber nat | JNull

definition hex_digit :: "nat \<Rightarrow> char" where
  "hex_digit n = ''0123456789abcdef'' ! (n mod 16)"

text \<open>The escapes of \<open>JSON.stringify\<close> for a code unit below 256.\<close>

definition json_escape :: "char \<Rightarrow> string" where
  \<open>json_escape c =
     (if c = CHR 0x22 then [CHR 0x5C, CHR 0x22]
      else if c = CHR 0x5C then [CHR 0x5C, CHR 0x5C]
      else if c = CHR 0x08 then [CHR 0x5C, CHR ''b'']
      else if c = CHR 0x0C then [CHR 0x5C, CHR ''f'']
      else if c = CHR 0x0A then [CHR 0x5C, CHR ''n'']
      else if c = CHR 0x0D then [CHR 0x5C, CHR ''r'']
      else if c = CHR 0x09 then [CHR 0x5C, CHR ''t'']
      else if (of_char c :: nat) < 32
      then [CHR 0x5C, CHR ''u'', CHR ''0'', CHR ''0'',
            hex_digit (of_char c div 16), hex_digit (of_char c)]
      else [c])\<close>

definition json_quote :: "string \<Rightarrow> string" where
  "json_quote s = [CHR 0x22] @ concat (map json_escape s) @ [CHR 0x22]"

fun decimal :: "nat \<Rightarrow> string" where
  "decimal n = (if n < 10 then [hex_digit n] else decimal (n div 10) @ [hex_digit (n mod 10)])"

fun json_value :: "json \<Rightarrow> string" where
  "json_value (JString s) = json_quote s"
| "json_value (JNumber n) = decimal n"
| "json_value JNull = ''null''"

fun intercalate :: "string \<Rightarrow> string list \<Rightarrow> string" where
  "intercalate sep [] = []"
| "intercalate sep [x] = x"
| "intercalate sep (x # y # ys) = x @ sep @ intercalate sep (y # ys)"

text \<open>\<open>JSON.stringify(obj, null, 2)\<close> for an object of strings, numbers and nulls.\<close>

definition JSON_stringify :: "(string \<times> json) list \<Rightarrow> string" where
  "JSON_stringify obj =
     (if obj = [] then ''{}''
      else ''{'' @ [CHR 0x0A]
           @ intercalate ('','' @ [CHR 0x0A])
               (map (\<lambda>(k, v). ''  '' @ json_quote k @ '': '' @ json_value v) obj)
           @ [CHR 0x0A] @ ''}'')"

section \<open>The metadata form\<close>

text \<open>The values of the form's fields, and the record \<open>validateAndGet\<close> hands over.\<close>

record form_values =
  v_name :: string
  v_author :: "string option"
  v_description :: "string option"
  v_link :: "string option"
  v_imageFile :: "File option"

record ModMetadata =
  m_name :: string
  m_author :: "string option"
  m_link :: "string option"
  m_description :: "string option"
  imageFile :: "File option"

text \<open>
  The schema: a name of at least two code units, an author of at most 128 and a description
  of at most 4000 when given, a link that is a URL or empty when given.
\<close>

definition schema :: "env \<Rightarrow> form_values \<Rightarrow> bool" where
  "schema env v =
     (2 \<le> length (v_name v)
      \<and> (case v_author v of None \<Rightarrow> True | Some a \<Rightarrow> length a \<le> 128)
      \<and> (case v_description v of None \<Rightarrow> True | Some d \<Rightarrow> length d \<le> 4000)
      \<and> (case v_link v of None \<Rightarrow> True | Some l \<Rightarrow> valid_url env l \<or> l = []))"

text \<open>\<open>String.prototype.trim\<close>: the white space and line terminators below 256.\<close>

definition white_space :: "char \<Rightarrow> bool" where
  "white_space c =
     (c \<in> set [CHR 0x09, CHR 0x0A, CHR 0x0B, CHR 0x0C, CHR 0x0D, CHR 0x20, CHR 0xA0])"

definition trim :: "string \<Rightarrow> string" where
  "trim s = rev (dropWhile white_space (rev (dropWhile white_space s)))"

text \<open>\<open>x?.trim() || undefined\<close>\<close>

definition trim_or_undefined :: "string option \<Rightarrow> string option" where
  "trim_or_undefined x =
     (case x of
        None \<Rightarrow> None
      | Some s \<Rightarrow> (if trim s \<noteq> [] then Some (trim s) else None))"

definition validateAndGet :: "env \<Rightarrow> form_values \<Rightarrow> ModMetadata option" where
  "validateAndGet env values =
     (if \<not> schema env values then None
      else Some \<lparr>m_name = trim (v_name values),
                 m_author = trim_or_undefined (v_author values),
                 m_link = trim_or_undefined (v_link values),
                 m_description = trim_or_undefined (v_description values),
                 imageFile = v_imageFile values\<rparr>)"

section \<open>The stager\<close>

text \<open>\<open>x || d\<close> for an optional string: the empty string is falsy.\<close>

definition or_else :: "string option \<Rightarrow> 'a \<Rightarrow> (string \<Rightarrow> 'a) \<Rightarrow> 'a" where
  "or_else x d f = (case x of None \<Rightarrow> d | Some s \<Rightarrow> (if s \<noteq> [] then f s else d))"

definition FALLBACK_SVG :: string where
  \<open>FALLBACK_SVG =
     ''<svg xmlns="http://www.w3.org/2000/svg" width="640" height="360"><defs>''
     @ ''<linearGradient id="g" x1="0" x2="1" y1="0" y2="1">''
     @ ''<stop stop-color="#1f2937" offset="0"/><stop stop-color="#111827" offset="1"/>''
     @ ''</linearGradient></defs><rect width="100%" height="100%" fill="url(#g)"/>''
     @ ''<g font-family="Inter, Arial, sans-serif" fill="#E5E7EB" text-anchor="middle">''
     @ ''<text x="50%" y="48%" font-size="36" font-weight="700">MOD</text>''
     @ ''<text x="50%" y="62%" font-size="14" fill="#9CA3AF">No image provided</text></g></svg>''\<close>

datatype source_type = St_Url | St_Archive | St_Vpk | St_Folder_Vpk

datatype outcome = Form_Invalid | Url_Flow | No_Source | Added mod_dto

text \<open>Lines 194 to 198: the identifier and the directory layout.\<close>

definition modId :: "env \<Rightarrow> string" where
  "modId env = ''local-'' @ randomUUID env"

definition modsRoot :: "env \<Rightarrow> path" where
  "modsRoot env = join (appLocalDataDir env) ''mods''"

definition modDir :: "env \<Rightarrow> path" where
  "modDir env = join (modsRoot env) (modId env)"

definition filesDir :: "env \<Rightarrow> path" where
  "filesDir env = join (modDir env) ''files''"

text \<open>Lines 199 to 201.\<close>

definition make_dirs :: "env \<Rightarrow> unit io" where
  "make_dirs env =
     bind_io (ensureDir env (modsRoot env)) (\<lambda>_.
     bind_io (ensureDir env (modDir env)) (\<lambda>_.
     ensureDir env (filesDir env)))"

text \<open>Lines 203 to 206: the value of \<open>previewName\<close>.\<close>

definition previewName :: "File option \<Rightarrow> string" where
  "previewName picked =
     (case picked of
        Some img \<Rightarrow>
          (let extMatch = match_suffix_i
                 [''.png'', ''.jpg'', ''.jpeg'', ''.webp'', ''.gif'', ''.svg''] (name img)
           in ''preview'' @ (case extMatch of Some m \<Rightarrow> toLowerCase m | None \<Rightarrow> ''.png''))
      | None \<Rightarrow> ''preview.svg'')"

text \<open>Lines 204 to 212: the preview image is written.\<close>

definition write_preview :: "env \<Rightarrow> ModMetadata \<Rightarrow> unit io" where
  "write_preview env meta =
     (case imageFile meta of
        Some img \<Rightarrow>
          writeBytes env (join (modDir env) (previewName (imageFile meta))) (toBytes img)
      | None \<Rightarrow>
          writeText env (join (modDir env) (previewName (imageFile meta))) FALLBACK_SVG)"

text \<open>\<open>entry.name.split('/').pop() || 'mod.vpk'\<close>\<close>

definition baseName :: "string \<Rightarrow> string" where
  "baseName n = (let b = last (split_on CHR ''/'' n) in if b \<noteq> [] then b else ''mod.vpk'')"

text \<open>Lines 215 to 237: the body of the \<open>try\<close>.\<close>

definition stage_payload :: "env \<Rightarrow> detected_source \<Rightarrow> unit io" where
  "stage_payload env detected =
     (case detected of
        Vpk f \<Rightarrow> writeBytes env (join (filesDir env) (name f)) (toBytes f)
      | Folder_Vpk fs folderName \<Rightarrow>
          (case find (\<lambda>f. is_vpk (name f))
                  (sort_by (\<lambda>a b. localeCompare env (fileName a) (fileName b)) fs) of
             None \<Rightarrow> throw No_Vpk_In_Folder
           | Some first \<Rightarrow> writeBytes env (join (filesDir env) (name first)) (toBytes first))
      | Archive f \<Rightarrow>
          (if endsWith (toLowerCase (name f)) ''.zip''
           then (case loadAsync env (toBytes f) of
                   None \<Rightarrow> throw Zip_Load_Error
                 | Some zip_files \<Rightarrow>
                     (case find (\<lambda>z. \<not> zdir z \<and> is_vpk (zname z)) zip_files of
                        None \<Rightarrow>
                          bind_io (writeBytes env (join (modDir env) (name f)) (toBytes f))
                            (\<lambda>_. toast_io (Toast_Error No_Vpk_Inside_Zip))
                      | Some entry \<Rightarrow>
                          (case zdata entry of
                             None \<Rightarrow> throw Zip_Entry_Error
                           | Some buf \<Rightarrow>
                               writeBytes env (join (filesDir env) (baseName (zname entry))) buf)))
           else writeBytes env (join (modDir env) (name f)) (toBytes f)))"

text \<open>Lines 238 to 244: the \<open>catch\<close>; \<open>'file' in detected\<close> holds for the two single-file kinds.\<close>

definition on_error :: "env \<Rightarrow> detected_source \<Rightarrow> exn \<Rightarrow> unit io" where
  "on_error env detected e =
     bind_io (toast_io (Toast_Error Failed_To_Process_Archive))
       (\<lambda>_. case detected of
               Vpk f \<Rightarrow> writeBytes env (join (modDir env) (name f)) (toBytes f)
             | Archive f \<Rightarrow> writeBytes env (join (modDir env) (name f)) (toBytes f)
             | Folder_Vpk fs folderName \<Rightarrow> return_io ())"

text \<open>Lines 246 to 250: the archive is stored when \<open>files/\<close> holds no packed asset.\<close>

definition store_archive_if_no_vpk :: "env \<Rightarrow> detected_source \<Rightarrow> unit io" where
  "store_archive_if_no_vpk env detected =
     bind_io (readDir env (filesDir env))
       (\<lambda>filesList.
          let hasVpk = list_ex is_vpk filesList
          in case detected of
               Archive f \<Rightarrow>
                 (if \<not> hasVpk then writeBytes env (join (modDir env) (name f)) (toBytes f)
                  else return_io ())
             | _ \<Rightarrow> return_io ())"

text \<open>Lines 252 to 263: the metadata object, in the order of its properties.\<close>

definition metadata :: "env \<Rightarrow> ModMetadata \<Rightarrow> string \<Rightarrow> string \<Rightarrow> (string \<times> json) list" where
  "metadata env meta category preview =
     [(''id'', JString (modId env)),
      (''kind'', JString ''local''),
      (''name'', JString (m_name meta)),
      (''author'', JString (or_else (m_author meta) ''Unknown'' (\<lambda>s. s))),
      (''link'', or_else (m_link meta) JNull JString),
      (''description'', or_else (m_description meta) JNull JString),
      (''category'', JString category),
      (''createdAt'', JString (toISOString env)),
      (''preview'', JString preview),
      (''_schema'', JNumber 1)]"

text \<open>Line 264.\<close>

definition write_metadata :: "env \<Rightarrow> string \<Rightarrow> ModMetadata \<Rightarrow> string \<Rightarrow> unit io" where
  "write_metadata env category meta preview =
     writeText env (join (modDir env) ''metadata.json'')
       (JSON_stringify (metadata env meta category preview))"

text \<open>
  Lines 273 to 295: the entry for the store, the success notification, the dialog closed.
  The images of the entry (one data URL) and its empty \<open>hero\<close> are not part of the model.
\<close>

definition publish :: "env \<Rightarrow> string \<Rightarrow> ModMetadata \<Rightarrow> outcome io" where
  "publish env category meta w =
     (let createdAt = toISOString env;
          modDto = \<lparr>remoteId = modId env,
                    dto_name = m_name meta,
                    dto_description = or_else (m_description meta) [] (\<lambda>s. s),
                    remoteUrl = or_else (m_link meta) ''local://manual'' (\<lambda>s. s),
                    dto_author = or_else (m_author meta) ''Unknown'' (\<lambda>s. s),
                    downloadable = False,
                    remoteAddedAt = createdAt,
                    remoteUpdatedAt = createdAt,
                    tags = [],
                    downloadCount = 0,
                    likes = 0,
                    dto_category = category,
                    dto_path = modDir env,
                    dto_status = DOWNLOADED\<rparr>
      in (Inr (Added modDto),
          w\<lparr>library := library w @ [modDto],
            toasts := toasts w @ [Toast_Success (Added_Mod (m_name meta))],
            dialog_open := False\<rparr>))"

text \<open>Lines 246 to 295: after the payload.\<close>

definition finish :: "env \<Rightarrow> string \<Rightarrow> ModMetadata \<Rightarrow> detected_source \<Rightarrow> outcome io" where
  "finish env category meta detected =
     bind_io (store_archive_if_no_vpk env detected) (\<lambda>_.
     bind_io (write_metadata env category meta (previewName (imageFile meta))) (\<lambda>_.
     publish env category meta))"

text \<open>Lines 194 to 295: what \<open>finalize\<close> does once a source is at hand.\<close>

definition stage ::
  "env \<Rightarrow> string \<Rightarrow> ModMetadata \<Rightarrow> detected_source \<Rightarrow> outcome io" where
  "stage env category meta detected =
     bind_io (make_dirs env) (\<lambda>_.
     bind_io (write_preview env meta) (\<lambda>_.
     bind_io (try_catch (stage_payload env detected)
                (on_error env detected)) (\<lambda>_.
     finish env category meta detected)))"

text \<open>
  \<open>finalize\<close>: the form's values, the category and source type of the dialog's form, and
  the detected source of the page's state.
\<close>

definition finalize ::
  "env \<Rightarrow> form_values \<Rightarrow> string \<Rightarrow> source_type \<Rightarrow> detected_source option \<Rightarrow> outcome io" where
  "finalize env values category sourceType detected =
     (case validateAndGet env values of
        None \<Rightarrow> return_io Form_Invalid
      | Some meta \<Rightarrow>
          (if sourceType = St_Url
           then bind_io (toast_io (Toast_Info Url_Flow_Handled))
                  (\<lambda>_ w. (Inr Url_Flow, w\<lparr>dialog_open := False\<rparr>))
           else (case detected of
                   None \<Rightarrow>
                     bind_io (toast_io (Toast_Error No_Files_Detected)) (\<lambda>_. return_io No_Source)
                 | Some d \<Rightarrow> stage env category meta d)))"

section \<open>Notions used to state the properties\<close>

text \<open>From the \<open>n\<close>-th call on, no call into the file system fails.\<close>

definition no_fail_from :: "env \<Rightarrow> nat \<Rightarrow> bool" where
  "no_fail_from env n = (\<forall>k op. n \<le> k \<longrightarrow> \<not> io_fails env k op)"

text \<open>A path is a directory or lies below it.\<close>

definition under :: "path \<Rightarrow> path \<Rightarrow> bool" where
  "under dir p = (take (length dir) p = dir)"

text \<open>The run ended with the mod added to the library.\<close>

definition succeeded :: "(exn + outcome) \<times> world \<Rightarrow> bool" where
  "succeeded r = (case fst r of Inr (Added dto) \<Rightarrow> True | _ \<Rightarrow> False)"

text \<open>The bytes of the preview file.\<close>

definition preview_bytes :: "File option \<Rightarrow> bytes" where
  "preview_bytes img = (case img of None \<Rightarrow> encode FALLBACK_SVG | Some f \<Rightarrow> toBytes f)"

text \<open>Comparison of strings by code units.\<close>

fun code_unit_compare :: "string \<Rightarrow> string \<Rightarrow> int" where
  "code_unit_compare [] [] = 0"
| "code_unit_compare [] (y # ys) = - 1"
| "code_unit_compare (x # xs) [] = 1"
| "code_unit_compare (x # xs) (y # ys) =
     (if (of_char x :: nat) < of_char y then - 1
      else if (of_char y :: nat) < of_char x then 1
      else code_unit_compare xs ys)"

text \<open>The bytes of the metadata document.\<close>

definition metadata_document :: "env \<Rightarrow> string \<Rightarrow> ModMetadata \<Rightarrow> bytes" where
  "metadata_document env category meta =
     encode (JSON_stringify
       (metadata env meta category (previewName (imageFile meta))))"

text \<open>The entry the folder branch stages: the first under \<open>localeCompare\<close> of \<open>fileName\<close>.\<close>

definition first_by_fileName :: "env \<Rightarrow> File list \<Rightarrow> File" where
  "first_by_fileName env fs =
     hd (sort_by (\<lambda>a b. localeCompare env (fileName a) (fileName b)) fs)"



section \<open>Example inputs\<close>

definition readme_txt :: File where
  "readme_txt = \<lparr>name = ''readme.txt'', webkitRelativePath = ''a/readme.txt'', toBytes = [7]\<rparr>"

definition b_vpk :: File where
  "b_vpk = \<lparr>name = ''b.vpk'', webkitRelativePath = ''a/b.vpk'', toBytes = [1, 2]\<rparr>"

definition c_vpk :: File where
  "c_vpk = \<lparr>name = ''c.vpk'', webkitRelativePath = ''a/c.vpk'', toBytes = [3, 4]\<rparr>"


text \<open>An environment in which no call into the file system fails, and an empty world.\<close>

definition env0 :: env where
  "env0 = \<lparr>randomUUID = ''u1'',
           toISOString = ''2025-01-01T00:00:00.000Z'',
           appLocalDataDir = [''data''],
           localeCompare = code_unit_compare,
           loadAsync = (\<lambda>_. None),
           valid_url = (\<lambda>_. True),
           io_fails = (\<lambda>_ _. False)\<rparr>"

definition world0 :: world where
  "world0 = \<lparr>fs_dirs = [], fs_files = [], fs_log = [], toasts = [], library = [],
             dialog_open = True\<rparr>"

definition values0 :: form_values where
  "values0 = \<lparr>v_name = '' Red Armor '', v_author = Some [], v_description = None,
              v_link = None, v_imageFile = None\<rparr>"

definition meta0 :: ModMetadata where
  "meta0 = \<lparr>m_name = ''Red Armor'', m_author = None, m_link = None, m_description = None,
            imageFile = None\<rparr>"

definition skinpack_vpk :: File where
  "skinpack_vpk = \<lparr>name = ''SkinPack.vpk'', webkitRelativePath = [], toBytes = [1, 2, 3]\<rparr>"

definition bundle_zip :: File where
  "bundle_zip = \<lparr>name = ''bundle.zip'', webkitRelativePath = [], toBytes = [80, 75]\<rparr>"







text \<open>Environments in which one call into the file system fails: the seventh, which
  writes the preview, or the eighth, which writes the payload.\<close>

definition env_preview_fails :: env where
  "env_preview_fails = env0\<lparr>io_fails := (\<lambda>k op. k = 6)\<rparr>"



definition pic_jpg :: File where
  "pic_jpg = \<lparr>name = ''Pic.JPG'', webkitRelativePath = [], toBytes = [255, 216]\<rparr>"

definition values1 :: form_values where
  "values1 = \<lparr>v_name = ''Blue Cape'', v_author = Some ''Ann'', v_description = None,
              v_link = None, v_imageFile = Some pic_jpg\<rparr>"

definition meta1 :: ModMetadata where
  "meta1 = \<lparr>m_name = ''Blue Cape'', m_author = Some ''Ann'', m_link = None,
            m_description = None, imageFile = Some pic_jpg\<rparr>"

section \<open>Properties of the classifier\<close>

lemma split_on_not_Nil: "split_on c s \<noteq> []"
  by (induction s) (auto split: list.splits)

lemma hd_split_on: "hd (split_on c s) = takeWhile (\<lambda>x. x \<noteq> c) s"
proof (induction s)
  case Nil
  show ?case by simp
next
  case (Cons x xs)
  then show ?case
    using split_on_not_Nil [of c xs] by (cases "split_on c xs") auto
qed

lemma endsWith_append: "endsWith (p @ e) e"
  by (simp add: endsWith_def)

lemma endsWith_split: "endsWith s e \<Longrightarrow> \<exists>p. s = p @ e"
  unfolding endsWith_def by (metis append_take_drop_id)

lemma endsWith_lower_iff:
  "endsWith (map lower_char s) a \<longleftrightarrow> (\<exists>stem ext. s = stem @ ext \<and> map lower_char ext = a)"
proof
  assume e: "endsWith (map lower_char s) a"
  from endsWith_split [OF e] obtain p where p: "map lower_char s = p @ a"
    by blast
  let ?stem = "take (length p) s" and ?ext = "drop (length p) s"
  have "map lower_char ?ext = drop (length p) (map lower_char s)"
    by (simp add: drop_map)
  then have "map lower_char ?ext = a"
    using p by simp
  moreover have "s = ?stem @ ?ext" by simp
  ultimately show "\<exists>stem ext. s = stem @ ext \<and> map lower_char ext = a"
    by blast
next
  assume "\<exists>stem ext. s = stem @ ext \<and> map lower_char ext = a"
  then obtain stem ext where s: "s = stem @ ext" and e: "map lower_char ext = a"
    by blast
  have "endsWith (map lower_char stem @ a) a"
    by (rule endsWith_append)
  then show "endsWith (map lower_char s) a"
    using s e by simp
qed

lemma match_suffix_i_iff:
  "match_suffix_i alts s \<noteq> None \<longleftrightarrow>
     (\<exists>stem ext. s = stem @ ext \<and> map lower_char ext \<in> set alts)"
proof -
  have "match_suffix_i alts s \<noteq> None \<longleftrightarrow> (\<exists>a \<in> set alts. endsWith (map lower_char s) a)"
  proof (cases "filter (endsWith (map lower_char s)) alts")
    case Nil
    then show ?thesis
      by (simp add: match_suffix_i_def filter_empty_conv)
  next
    case (Cons a as)
    then have "a \<in> set (filter (endsWith (map lower_char s)) alts)"
      by simp
    then have "\<exists>a \<in> set alts. endsWith (map lower_char s) a"
      by auto
    with Cons show ?thesis
      by (simp add: match_suffix_i_def)
  qed
  then show ?thesis
    unfolding endsWith_lower_iff by blast
qed

lemma is_vpk_iff:
  "is_vpk s \<longleftrightarrow> (\<exists>stem ext. s = stem @ ext \<and> map lower_char ext = ''.vpk'')"
  unfolding is_vpk_def match_suffix_i_iff by simp

lemma is_archive_iff:
  "is_archive s \<longleftrightarrow>
     (\<exists>stem ext. s = stem @ ext \<and> map lower_char ext \<in> {''.zip'', ''.rar'', ''.7z''})"
  unfolding is_archive_def match_suffix_i_iff by simp

text \<open>
  C6. A drop of exactly one file whose name ends in the packed-asset extension \<open>.vpk\<close>, in
  any case, is classified as a single packed asset holding that file; a single file whose
  name does not, and ends in \<open>.zip\<close>, \<open>.rar\<close> or \<open>.7z\<close> in any case, is classified as
  a single archive holding that file.
\<close>

theorem detectSource_single_entry:
  "((\<exists>stem ext. name f = stem @ ext \<and> map lower_char ext = ''.vpk'')
      \<longrightarrow> detectSource [f] = Some (Vpk f))
   \<and> (\<not> (\<exists>stem ext. name f = stem @ ext \<and> map lower_char ext = ''.vpk'')
        \<and> (\<exists>stem ext. name f = stem @ ext \<and> map lower_char ext \<in> {''.zip'', ''.rar'', ''.7z''})
      \<longrightarrow> detectSource [f] = Some (Archive f))"
  unfolding is_vpk_iff [symmetric] is_archive_iff [symmetric]
  by (simp add: detectSource_def truthy_def)

theorem detectSource_single_entry_witness:
  "detectSource [\<lparr>name = ''SkinPack.VPK'', webkitRelativePath = [], toBytes = [1, 2]\<rparr>]
     = Some (Vpk \<lparr>name = ''SkinPack.VPK'', webkitRelativePath = [], toBytes = [1, 2]\<rparr>)
   \<and> detectSource [\<lparr>name = ''bundle.7Z'', webkitRelativePath = [], toBytes = [3]\<rparr>]
     = Some (Archive \<lparr>name = ''bundle.7Z'', webkitRelativePath = [], toBytes = [3]\<rparr>)"
proof -
  let ?v = "\<lparr>name = ''SkinPack.VPK'', webkitRelativePath = [], toBytes = [1, 2 :: 8 word]\<rparr>"
  let ?a = "\<lparr>name = ''bundle.7Z'', webkitRelativePath = [], toBytes = [3 :: 8 word]\<rparr>"
  have v: "\<exists>stem ext. name ?v = stem @ ext \<and> map lower_char ext = ''.vpk''"
    by (rule exI [of _ "''SkinPack''"], rule exI [of _ "''.VPK''"]) (simp add: lower_char_def ascii_upper_def ascii_lower_def)
  have a: "\<exists>stem ext. name ?a = stem @ ext \<and> map lower_char ext \<in> {''.zip'', ''.rar'', ''.7z''}"
    by (rule exI [of _ "''bundle''"], rule exI [of _ "''.7Z''"]) (simp add: lower_char_def ascii_upper_def ascii_lower_def)
  have nv: "\<not> (\<exists>stem ext. name ?a = stem @ ext \<and> map lower_char ext = ''.vpk'')"
    unfolding is_vpk_iff [symmetric]
    by (simp add: is_vpk_def match_suffix_i_def endsWith_def lower_char_def ascii_upper_def ascii_lower_def)
  have 1: "detectSource [?v] = Some (Vpk ?v)"
    by (rule detectSource_single_entry [of ?v, THEN conjunct1, THEN mp, OF v])
  have 2: "detectSource [?a] = Some (Archive ?a)"
    by (rule detectSource_single_entry [of ?a, THEN conjunct2, THEN mp, OF conjI [OF nv a]])
  from 1 2 show ?thesis ..
qed

text \<open>
  C7. A drop of two or more files of which at least one matches the packed-asset extension
  is classified as a folder with packed assets: it holds exactly the matching files, in
  their order, whatever else is mixed in, and its folder name is the first segment of the
  first matching file's relative path when that path is present, and absent otherwise. The
  empty drop, and a drop of several files none of which matches, are unrecognised.
\<close>

theorem detectSource_multi_entry:
  "(2 \<le> length files \<and> filter (\<lambda>f. is_vpk (name f)) files \<noteq> [] \<longrightarrow>
      detectSource files =
        Some (Folder_Vpk (filter (\<lambda>f. is_vpk (name f)) files)
               (let rel = webkitRelativePath (hd (filter (\<lambda>f. is_vpk (name f)) files))
                in if rel = [] then None else Some (takeWhile (\<lambda>c. c \<noteq> CHR ''/'') rel))))
   \<and> detectSource [] = None
   \<and> (2 \<le> length files \<and> filter (\<lambda>f. is_vpk (name f)) files = [] \<longrightarrow>
        detectSource files = None)"
proof (intro conjI impI)
  show "detectSource [] = None"
    by (simp add: detectSource_def)
next
  assume h: "2 \<le> length files \<and> filter (\<lambda>f. is_vpk (name f)) files = []"
  then have "length files \<noteq> 1" and "length files \<noteq> 0" by auto
  with h show "detectSource files = None"
    by (simp add: detectSource_def truthy_def split: option.splits bool.splits)
next
  assume h: "2 \<le> length files \<and> filter (\<lambda>f. is_vpk (name f)) files \<noteq> []"
  then have n: "length files \<noteq> 1" "length files \<noteq> 0" by auto
  from h obtain first rest where fr: "filter (\<lambda>f. is_vpk (name f)) files = first # rest"
    by (cases "filter (\<lambda>f. is_vpk (name f)) files") auto
  show "detectSource files =
        Some (Folder_Vpk (filter (\<lambda>f. is_vpk (name f)) files)
               (let rel = webkitRelativePath (hd (filter (\<lambda>f. is_vpk (name f)) files))
                in if rel = [] then None else Some (takeWhile (\<lambda>c. c \<noteq> CHR ''/'') rel)))"
    using n fr
    by (simp add: detectSource_def truthy_def hd_split_on Let_def
             split: option.splits bool.splits)
qed

lemma is_vpk_examples:
  "\<not> is_vpk ''readme.txt''" "is_vpk ''b.vpk''" "is_vpk ''c.vpk''" "\<not> is_vpk ''notes.md''"
  by (simp_all add: is_vpk_def match_suffix_i_def endsWith_def lower_char_def
        ascii_upper_def ascii_lower_def)

theorem detectSource_multi_entry_witness:
  "detectSource [readme_txt, b_vpk, c_vpk] = Some (Folder_Vpk [b_vpk, c_vpk] (Some ''a''))
   \<and> detectSource [] = None
   \<and> detectSource [readme_txt, readme_txt\<lparr>name := ''notes.md''\<rparr>] = None"
proof -
  have 1: "filter (\<lambda>f. is_vpk (name f)) [readme_txt, b_vpk, c_vpk] = [b_vpk, c_vpk]"
    by (simp add: readme_txt_def b_vpk_def c_vpk_def is_vpk_examples)
  have 2: "filter (\<lambda>f. is_vpk (name f)) [readme_txt, readme_txt\<lparr>name := ''notes.md''\<rparr>] = []"
    by (simp add: readme_txt_def is_vpk_examples)
  have 3: "webkitRelativePath b_vpk = ''a/b.vpk''"
    by (simp add: b_vpk_def)
  show ?thesis
    using detectSource_multi_entry [of "[readme_txt, b_vpk, c_vpk]"]
      detectSource_multi_entry [of "[readme_txt, readme_txt\<lparr>name := ''notes.md''\<rparr>]"]
    unfolding 1 2 by (simp add: 3)
qed

section \<open>Running computations\<close>

lemma bind_io_InrE:
  assumes "bind_io m f w = (Inr r, w'')"
  obtains a w' where "m w = (Inr a, w')" and "f a w' = (Inr r, w'')"
proof (cases "m w")
  case (Pair x w')
  show ?thesis
  proof (cases x)
    case (Inl e)
    with Pair assms show ?thesis
      by (simp add: bind_io_def)
  next
    case (Inr a)
    with Pair assms that [of a w'] show ?thesis
      by (simp add: bind_io_def)
  qed
qed

lemma try_catch_Inr: "m w = (Inr a, w') \<Longrightarrow> try_catch m h w = (Inr a, w')"
  by (simp add: try_catch_def)

lemma no_fail_from_Suc: "no_fail_from env n \<Longrightarrow> no_fail_from env (Suc n)"
  by (simp add: no_fail_from_def)

lemma fs_call_ok:
  "no_fail_from env (length (fs_log w)) \<Longrightarrow>
   fs_call env op w = (Inr (), w\<lparr>fs_log := fs_log w @ [(op, True)]\<rparr>)"
  by (simp add: fs_call_def no_fail_from_def)

lemma writeFile_ok:
  assumes "no_fail_from env (length (fs_log w))"
  shows "\<exists>w'. writeFile env p d w = (Inr (), w')
           \<and> fs_files w' = AList.update p d (fs_files w)
           \<and> toasts w' = toasts w
           \<and> no_fail_from env (length (fs_log w'))"
  using assms by (simp add: writeFile_def bind_io_def fs_call_ok no_fail_from_Suc)

lemma readDir_ok:
  assumes "no_fail_from env (length (fs_log w))"
  shows "\<exists>w'. readDir env dir w = (Inr (dir_entries w dir), w')
           \<and> fs_files w' = fs_files w
           \<and> toasts w' = toasts w
           \<and> no_fail_from env (length (fs_log w'))"
  using assms by (simp add: readDir_def bind_io_def fs_call_ok no_fail_from_Suc dir_entries_def)

lemma ensureDir_ok:
  assumes "no_fail_from env (length (fs_log w))"
  shows "\<exists>w'. ensureDir env p w = (Inr (), w')
           \<and> fs_files w' = fs_files w
           \<and> toasts w' = toasts w
           \<and> no_fail_from env (length (fs_log w'))"
  using assms
  by (simp add: ensureDir_def exists_fs_def mkdir_def return_io_def bind_io_def fs_call_ok
        no_fail_from_Suc)

lemma make_dirs_ok:
  assumes "no_fail_from env (length (fs_log w))"
  shows "\<exists>w'. make_dirs env w = (Inr (), w')
           \<and> fs_files w' = fs_files w
           \<and> toasts w' = toasts w
           \<and> no_fail_from env (length (fs_log w'))"
proof -
  from ensureDir_ok [OF assms, of "modsRoot env"] obtain w1
    where 1: "ensureDir env (modsRoot env) w = (Inr (), w1)" "fs_files w1 = fs_files w"
      "toasts w1 = toasts w" "no_fail_from env (length (fs_log w1))"
    by blast
  from ensureDir_ok [OF 1(4), of "modDir env"] obtain w2
    where 2: "ensureDir env (modDir env) w1 = (Inr (), w2)" "fs_files w2 = fs_files w1"
      "toasts w2 = toasts w1" "no_fail_from env (length (fs_log w2))"
    by blast
  from ensureDir_ok [OF 2(4), of "filesDir env"] obtain w3
    where 3: "ensureDir env (filesDir env) w2 = (Inr (), w3)" "fs_files w3 = fs_files w2"
      "toasts w3 = toasts w2" "no_fail_from env (length (fs_log w3))"
    by blast
  have "make_dirs env w = (Inr (), w3)"
    by (simp add: make_dirs_def bind_io_def 1(1) 2(1) 3(1))
  with 1 2 3 show ?thesis
    by simp
qed

lemma write_preview_ok:
  assumes "no_fail_from env (length (fs_log w))"
  shows "\<exists>w'. write_preview env meta w = (Inr (), w')
           \<and> fs_files w' = AList.update (join (modDir env) (previewName (imageFile meta)))
                              (preview_bytes (imageFile meta)) (fs_files w)
           \<and> toasts w' = toasts w
           \<and> no_fail_from env (length (fs_log w'))"
  using writeFile_ok [OF assms]
  by (cases "imageFile meta")
     (simp_all add: write_preview_def writeBytes_def writeText_def preview_bytes_def)

lemma finalize_stage:
  "validateAndGet env values = Some meta \<Longrightarrow> sourceType \<noteq> St_Url \<Longrightarrow>
   finalize env values category sourceType (Some d) = stage env category meta d"
  by (simp add: finalize_def)

lemma stage_start:
  assumes "no_fail_from env (length (fs_log w))"
  shows "\<exists>w2. stage env category meta detected w =
                 bind_io (try_catch (stage_payload env detected)
                            (on_error env detected))
                   (\<lambda>_. finish env category meta detected) w2
           \<and> fs_files w2 = AList.update (join (modDir env) (previewName (imageFile meta)))
                              (preview_bytes (imageFile meta)) (fs_files w)
           \<and> toasts w2 = toasts w
           \<and> no_fail_from env (length (fs_log w2))"
proof -
  from make_dirs_ok [OF assms] obtain w1
    where 1: "make_dirs env w = (Inr (), w1)" "fs_files w1 = fs_files w"
      "toasts w1 = toasts w" "no_fail_from env (length (fs_log w1))"
    by blast
  from write_preview_ok [OF 1(4), of meta] obtain w2
    where 2: "write_preview env meta w1 = (Inr (), w2)"
      "fs_files w2 = AList.update (join (modDir env) (previewName (imageFile meta)))
                       (preview_bytes (imageFile meta)) (fs_files w1)"
      "toasts w2 = toasts w1" "no_fail_from env (length (fs_log w2))"
    by blast
  have "stage env category meta detected w =
          bind_io (try_catch (stage_payload env detected)
                     (on_error env detected))
            (\<lambda>_. finish env category meta detected) w2"
    unfolding stage_def
    by (subst bind_io_def, simp only: 1(1) prod.case sum.case,
        subst bind_io_def, simp only: 2(1) prod.case sum.case)
  with 1 2 show ?thesis
    by auto
qed

lemma publish_result:
  "\<exists>dto w'. publish env c meta w = (Inr (Added dto), w')
      \<and> fs_files w' = fs_files w
      \<and> toasts w' = toasts w @ [Toast_Success (Added_Mod (m_name meta))]"
  by (simp add: publish_def Let_def)

lemma finish_ok:
  assumes nf: "no_fail_from env (length (fs_log w))"
      and stored: "\<forall>f. detected = Archive f \<longrightarrow>
                     list_ex is_vpk (dir_entries w (filesDir env))
                     \<or> AList.update (join (modDir env) (name f)) (toBytes f) (fs_files w)
                         = fs_files w"
  shows "\<exists>dto w'. finish env category meta detected w = (Inr (Added dto), w')
           \<and> fs_files w' =
               AList.update (join (modDir env) ''metadata.json'')
                 (metadata_document env category meta) (fs_files w)
           \<and> toasts w' = toasts w @ [Toast_Success (Added_Mod (m_name meta))]"
proof -
  from readDir_ok [OF nf, of "filesDir env"] obtain w1
    where 1: "readDir env (filesDir env) w = (Inr (dir_entries w (filesDir env)), w1)"
      "fs_files w1 = fs_files w" "toasts w1 = toasts w"
      "no_fail_from env (length (fs_log w1))"
    by blast
  have "\<exists>w2. store_archive_if_no_vpk env detected w = (Inr (), w2)
          \<and> fs_files w2 = fs_files w \<and> toasts w2 = toasts w
          \<and> no_fail_from env (length (fs_log w2))"
  proof (cases detected)
    case (Archive f)
    show ?thesis
    proof (cases "list_ex is_vpk (dir_entries w (filesDir env))")
      case True
      with Archive 1 show ?thesis
        by (simp add: store_archive_if_no_vpk_def bind_io_def return_io_def)
    next
      case False
      with stored Archive
      have same: "AList.update (join (modDir env) (name f)) (toBytes f) (fs_files w) = fs_files w"
        by simp
      from writeFile_ok [OF 1(4), of "join (modDir env) (name f)" "toBytes f"] obtain w2
        where 2: "writeFile env (join (modDir env) (name f)) (toBytes f) w1 = (Inr (), w2)"
          "fs_files w2 = AList.update (join (modDir env) (name f)) (toBytes f) (fs_files w1)"
          "toasts w2 = toasts w1" "no_fail_from env (length (fs_log w2))"
        by blast
      from Archive False 1 2 same show ?thesis
        by (simp add: store_archive_if_no_vpk_def bind_io_def writeBytes_def)
    qed
  next
    case (Vpk f)
    with 1 show ?thesis
      by (simp add: store_archive_if_no_vpk_def bind_io_def return_io_def)
  next
    case (Folder_Vpk fs folderName)
    with 1 show ?thesis
      by (simp add: store_archive_if_no_vpk_def bind_io_def return_io_def)
  qed
  then obtain w2
    where 2: "store_archive_if_no_vpk env detected w = (Inr (), w2)"
      "fs_files w2 = fs_files w" "toasts w2 = toasts w"
      "no_fail_from env (length (fs_log w2))"
    by blast
  let ?doc = "metadata_document env category meta"
  from writeFile_ok [OF 2(4), of "join (modDir env) ''metadata.json''" ?doc] obtain w3
    where 3: "writeFile env (join (modDir env) ''metadata.json'') ?doc w2 = (Inr (), w3)"
      "fs_files w3 = AList.update (join (modDir env) ''metadata.json'') ?doc (fs_files w2)"
      "toasts w3 = toasts w2"
    by blast
  from publish_result [of env category meta w3]
  obtain dto w' where 4:
    "publish env category meta w3 = (Inr (Added dto), w')"
    "fs_files w' = fs_files w3" "toasts w' = toasts w3 @ [Toast_Success (Added_Mod (m_name meta))]"
    by blast
  have "finish env category meta detected w = (Inr (Added dto), w')"
    using 2(1) 3(1) 4(1)
    by (simp add: finish_def bind_io_def write_metadata_def writeText_def metadata_document_def)
  with 2 3 4 show ?thesis
    by simp
qed

section \<open>Base names of archive entries\<close>









lemma dir_entries_written:
  assumes "fs_files w = AList.update (join dir n) v al"
  shows "n \<in> set (dir_entries w dir)"
proof -
  have "join dir n \<in> fst ` set (fs_files w)"
    unfolding assms AList.dom_update by simp
  then have "join dir n \<in> set (filter (\<lambda>p. p \<noteq> [] \<and> butlast p = dir)
                                  (map fst (fs_files w) @ fs_dirs w))"
    by (simp add: join_def)
  then have "last (join dir n) \<in> set (dir_entries w dir)"
    unfolding dir_entries_def set_remdups set_map by (rule imageI)
  then show ?thesis
    by (simp add: join_def)
qed

section \<open>The payload step when no call fails\<close>



lemma payload_folder:
  assumes nf: "no_fail_from env (length (fs_log w))"
      and found: "find (\<lambda>f. is_vpk (name f))
                    (sort_by (\<lambda>a b. localeCompare env (fileName a) (fileName b)) fs)
                  = Some first"
  shows "\<exists>w'. try_catch (stage_payload env (Folder_Vpk fs folderName))
                 (on_error env (Folder_Vpk fs folderName)) w = (Inr (), w')
           \<and> fs_files w' = AList.update (join (filesDir env) (name first)) (toBytes first) (fs_files w)
           \<and> toasts w' = toasts w
           \<and> no_fail_from env (length (fs_log w'))"
proof -
  from writeFile_ok [OF nf, of "join (filesDir env) (name first)" "toBytes first"] obtain w'
    where 1: "writeFile env (join (filesDir env) (name first)) (toBytes first) w = (Inr (), w')"
      "fs_files w' = AList.update (join (filesDir env) (name first)) (toBytes first) (fs_files w)"
      "toasts w' = toasts w" "no_fail_from env (length (fs_log w'))"
    by (elim exE conjE)
  have "stage_payload env (Folder_Vpk fs folderName) w = (Inr (), w')"
    using found 1(1) by (simp add: stage_payload_def writeBytes_def)
  then have "try_catch (stage_payload env (Folder_Vpk fs folderName))
               (on_error env (Folder_Vpk fs folderName)) w = (Inr (), w')"
    by (rule try_catch_Inr)
  with 1 show ?thesis
    by (intro exI [of _ w'] conjI)
qed

text \<open>
  A run in which no call fails and the payload step leaves one file: three files are
  written, the preview, the payload and the metadata document.
\<close>

lemma stage_three_files:
  assumes nf: "no_fail_from env (length (fs_log w))"
      and payload: "\<forall>w2. no_fail_from env (length (fs_log w2)) \<longrightarrow>
                      (\<exists>w3. try_catch (stage_payload env detected)
                             (on_error env detected) w2 = (Inr (), w3)
                         \<and> fs_files w3 = AList.update pp pb (fs_files w2)
                         \<and> toasts w3 = toasts w2 @ ts
                         \<and> no_fail_from env (length (fs_log w3)))"
      and stored: "\<forall>f. detected = Archive f \<longrightarrow>
                     (\<exists>n. pp = join (filesDir env) n \<and> is_vpk n)
                     \<or> (pp = join (modDir env) (name f) \<and> pb = toBytes f)"
  shows "\<exists>dto w'. stage env category meta detected w = (Inr (Added dto), w')
           \<and> fs_files w' =
               AList.update (join (modDir env) ''metadata.json'')
                 (metadata_document env category meta)
                 (AList.update pp pb
                    (AList.update (join (modDir env) (previewName (imageFile meta)))
                       (preview_bytes (imageFile meta)) (fs_files w)))
           \<and> toasts w' = toasts w @ ts @ [Toast_Success (Added_Mod (m_name meta))]"
proof -
  from stage_start [OF nf, where category = category and meta = meta and detected = detected]
  obtain w2
    where 2: "stage env category meta detected w =
                 bind_io (try_catch (stage_payload env detected)
                            (on_error env detected))
                   (\<lambda>_. finish env category meta detected) w2"
      "fs_files w2 = AList.update (join (modDir env) (previewName (imageFile meta)))
                       (preview_bytes (imageFile meta)) (fs_files w)"
      "toasts w2 = toasts w" "no_fail_from env (length (fs_log w2))"
    by (elim exE conjE)
  from payload 2(4) have "\<exists>w3. try_catch (stage_payload env detected)
                (on_error env detected) w2 = (Inr (), w3)
      \<and> fs_files w3 = AList.update pp pb (fs_files w2)
      \<and> toasts w3 = toasts w2 @ ts \<and> no_fail_from env (length (fs_log w3))"
    by blast
  then obtain w3
    where 3: "try_catch (stage_payload env detected)
                (on_error env detected) w2 = (Inr (), w3)"
      "fs_files w3 = AList.update pp pb (fs_files w2)"
      "toasts w3 = toasts w2 @ ts" "no_fail_from env (length (fs_log w3))"
    by (elim exE conjE)
  have st: "\<forall>f. detected = Archive f \<longrightarrow>
          list_ex is_vpk (dir_entries w3 (filesDir env))
          \<or> AList.update (join (modDir env) (name f)) (toBytes f) (fs_files w3) = fs_files w3"
  proof (intro allI impI)
    fix f
    assume "detected = Archive f"
    with stored have "(\<exists>n. pp = join (filesDir env) n \<and> is_vpk n)
        \<or> (pp = join (modDir env) (name f) \<and> pb = toBytes f)"
      by blast
    then show "list_ex is_vpk (dir_entries w3 (filesDir env))
          \<or> AList.update (join (modDir env) (name f)) (toBytes f) (fs_files w3) = fs_files w3"
    proof (elim disjE exE conjE)
      fix n
      assume "pp = join (filesDir env) n" and v: "is_vpk n"
      with 3(2) have "n \<in> set (dir_entries w3 (filesDir env))"
        by (simp add: dir_entries_written)
      with v show ?thesis
        unfolding list_ex_iff by blast
    next
      assume "pp = join (modDir env) (name f)" and "pb = toBytes f"
      with 3(2) show ?thesis
        by simp
    qed
  qed
  from finish_ok [where env = env and w = w3 and detected = detected and category = category
      and meta = meta, OF 3(4) st]
  obtain dto w'
    where 4: "finish env category meta detected w3 = (Inr (Added dto), w')"
      "fs_files w' = AList.update (join (modDir env) ''metadata.json'')
                       (metadata_document env category meta) (fs_files w3)"
      "toasts w' = toasts w3 @ [Toast_Success (Added_Mod (m_name meta))]"
    by (elim exE conjE)
  have "stage env category meta detected w = (Inr (Added dto), w')"
    unfolding 2(1) by (subst bind_io_def, simp only: 3(1) prod.case sum.case 4(1))
  with 2 3 4 show ?thesis
    by (intro exI [of _ dto] exI [of _ w']) simp
qed

text \<open>What the three writes leave under \<open>files/\<close>.\<close>

lemma previewName_not_files: "previewName img \<noteq> ''files''"
  by (cases img) (simp_all add: previewName_def Let_def)

lemma under_files_after:
  assumes "fs' = AList.update (join (modDir env) a) x
                   (AList.update pp pb (AList.update (join (modDir env) b) y fs))"
      and "under (filesDir env) p" and "p \<noteq> pp"
      and "a \<noteq> ''files''" and "b \<noteq> ''files''"
  shows "map_of fs' p = map_of fs p"
proof -
  have "p \<noteq> join (modDir env) a" and "p \<noteq> join (modDir env) b"
    using assms(2,4,5) by (auto simp: under_def join_def filesDir_def)
  with assms(1,3) show ?thesis
    by (simp add: AList.update_conv')
qed

lemma under_files_after_stage:
  assumes "fs' = AList.update (join (modDir env) ''metadata.json'') x
                   (AList.update pp pb
                      (AList.update (join (modDir env) (previewName img)) y fs))"
  shows "\<forall>p. under (filesDir env) p \<and> p \<noteq> pp \<longrightarrow> map_of fs' p = map_of fs p"
proof (intro allI impI)
  fix p
  assume "under (filesDir env) p \<and> p \<noteq> pp"
  then have u: "under (filesDir env) p" and n: "p \<noteq> pp"
    by simp_all
  have m: "''metadata.json'' \<noteq> ''files''"
    by simp
  from under_files_after [OF assms u n m previewName_not_files]
  show "map_of fs' p = map_of fs p" .
qed

section \<open>Archives\<close>

lemma succeededI: "r = (Inr (Added dto), w') \<Longrightarrow> succeeded r"
  by (simp add: succeeded_def)







lemma values0_valid: "validateAndGet env values0 = Some meta0"
  by (simp add: validateAndGet_def schema_def values0_def meta0_def trim_def white_space_def
        trim_or_undefined_def)







section \<open>Folders\<close>

lemma set_insert_by: "set (insert_by cmp x ys) = insert x (set ys)"
  by (induction ys) auto

lemma set_sort_by: "set (sort_by cmp xs) = set xs"
  by (induction xs) (simp_all add: sort_by_def set_insert_by)

lemma find_hd: "xs \<noteq> [] \<Longrightarrow> \<forall>x \<in> set xs. P x \<Longrightarrow> find P xs = Some (hd xs)"
  by (cases xs) simp_all










lemma folder_pick:
  assumes "fs \<noteq> []" and "\<forall>f \<in> set fs. is_vpk (name f)"
  shows "find (\<lambda>f. is_vpk (name f))
           (sort_by (\<lambda>a b. localeCompare env (fileName a) (fileName b)) fs)
         = Some (first_by_fileName env fs)"
proof -
  let ?s = "sort_by (\<lambda>a b. localeCompare env (fileName a) (fileName b)) fs"
  have s: "set ?s = set fs"
    by (rule set_sort_by)
  with assms(1) have "?s \<noteq> []"
    by auto
  moreover from s assms(2) have "\<forall>f \<in> set ?s. is_vpk (name f)"
    by simp
  ultimately show ?thesis
    unfolding first_by_fileName_def by (rule find_hd)
qed

lemma folder_staged:
  assumes valid: "validateAndGet env values = Some meta"
      and st: "sourceType \<noteq> St_Url"
      and nf: "no_fail_from env (length (fs_log w))"
      and ne: "fs \<noteq> []"
      and vpk: "\<forall>f \<in> set fs. is_vpk (name f)"
  shows "succeeded (finalize env values category sourceType (Some (Folder_Vpk fs folderName)) w)
         \<and> map_of (fs_files (snd (finalize env values category sourceType
                                    (Some (Folder_Vpk fs folderName)) w)))
              (join (filesDir env) (name (first_by_fileName env fs)))
             = Some (toBytes (first_by_fileName env fs))
         \<and> (\<forall>p. under (filesDir env) p
                  \<and> p \<noteq> join (filesDir env) (name (first_by_fileName env fs)) \<longrightarrow>
                map_of (fs_files (snd (finalize env values category sourceType
                                         (Some (Folder_Vpk fs folderName)) w))) p
                = map_of (fs_files w) p)"
proof -
  let ?first = "first_by_fileName env fs"
  let ?pp = "join (filesDir env) (name ?first)"
  let ?d = "Folder_Vpk fs folderName"
  have payload: "\<forall>w2. no_fail_from env (length (fs_log w2)) \<longrightarrow>
      (\<exists>w3. try_catch (stage_payload env ?d)
               (on_error env ?d) w2 = (Inr (), w3)
           \<and> fs_files w3 = AList.update ?pp (toBytes ?first) (fs_files w2)
           \<and> toasts w3 = toasts w2 @ []
           \<and> no_fail_from env (length (fs_log w3)))"
    using payload_folder [OF _ folder_pick [OF ne vpk]] by simp
  have stored: "\<forall>f'. ?d = Archive f' \<longrightarrow>
      (\<exists>n. ?pp = join (filesDir env) n \<and> is_vpk n)
      \<or> (?pp = join (modDir env) (name f') \<and> toBytes ?first = toBytes f')"
    by simp
  from stage_three_files [OF nf payload stored, where category = category and meta = meta]
  obtain dto w' where r: "stage env category meta ?d w = (Inr (Added dto), w')"
    and fs: "fs_files w' =
               AList.update (join (modDir env) ''metadata.json'')
                 (metadata_document env category meta)
                 (AList.update ?pp (toBytes ?first)
                    (AList.update (join (modDir env) (previewName (imageFile meta)))
                       (preview_bytes (imageFile meta)) (fs_files w)))"
    by (elim exE conjE)
  have fin: "finalize env values category sourceType (Some ?d) w = (Inr (Added dto), w')"
    using r by (simp add: finalize_stage [OF valid st])
  have 1: "succeeded (finalize env values category sourceType (Some ?d) w)"
    using fin by (rule succeededI)
  have 2: "map_of (fs_files w') ?pp = Some (toBytes ?first)"
    unfolding fs by (simp add: AList.update_conv' join_def filesDir_def)
  have 3: "\<forall>p. under (filesDir env) p \<and> p \<noteq> ?pp \<longrightarrow>
             map_of (fs_files w') p = map_of (fs_files w) p"
    using fs by (rule under_files_after_stage)
  from 1 2 3 show ?thesis
    unfolding fin by simp
qed


lemma env0_quiet: "no_fail_from env0 (length (fs_log world0))"
  by (simp add: no_fail_from_def env0_def)

lemma env0_layout:
  "filesDir env0 = [''data'', ''mods'', ''local-u1'', ''files'']"
  "modDir env0 = [''data'', ''mods'', ''local-u1'']"
  by (simp_all add: join_def filesDir_def modDir_def modsRoot_def modId_def env0_def)



section \<open>No source, and the metadata document\<close>

text \<open>
  C8. Without a detected source \<open>finalize\<close> creates no directory, writes no file and
  makes no call into the file system at all; with valid form values and outside the URL
  flow it shows the notification that no files were detected and returns at once with
  the outcome \<open>No_Source\<close>, the world otherwise unchanged.
\<close>

theorem finalize_without_source:
  "fs_dirs (snd (finalize env values category sourceType None w)) = fs_dirs w
   \<and> fs_files (snd (finalize env values category sourceType None w)) = fs_files w
   \<and> fs_log (snd (finalize env values category sourceType None w)) = fs_log w
   \<and> (validateAndGet env values \<noteq> None \<and> sourceType \<noteq> St_Url \<longrightarrow>
        finalize env values category sourceType None w
        = (Inr No_Source, w\<lparr>toasts := toasts w @ [Toast_Error No_Files_Detected]\<rparr>))"
  by (simp add: finalize_def bind_io_def toast_io_def return_io_def split: option.splits)

theorem finalize_without_source_witness:
  "finalize env0 values0 ''Skins'' St_Vpk None world0
     = (Inr No_Source, world0\<lparr>toasts := [Toast_Error No_Files_Detected]\<rparr>)
   \<and> fs_dirs (snd (finalize env0 values0 ''Skins'' St_Vpk None world0)) = []
   \<and> fs_files (snd (finalize env0 values0 ''Skins'' St_Vpk None world0)) = []
   \<and> fs_log (snd (finalize env0 values0 ''Skins'' St_Vpk None world0)) = []"
proof -
  have 1: "validateAndGet env0 values0 \<noteq> None"
    by (simp add: values0_valid)
  have 2: "St_Vpk \<noteq> St_Url"
    by simp
  note t = finalize_without_source [of env0 values0 "''Skins''" St_Vpk world0]
  from t [THEN conjunct2, THEN conjunct2, THEN conjunct2] 1 2
  have "finalize env0 values0 ''Skins'' St_Vpk None world0
          = (Inr No_Source, world0\<lparr>toasts := toasts world0 @ [Toast_Error No_Files_Detected]\<rparr>)"
    by blast
  then show ?thesis
    by (simp add: world0_def)
qed

lemma writeFile_Inr:
  "writeFile env p d w = (Inr u, w') \<Longrightarrow> fs_files w' = AList.update p d (fs_files w)"
  by (auto simp: writeFile_def bind_io_def fs_call_def split: if_splits)

lemma publish_files: "publish env c meta w = (r, w') \<Longrightarrow> fs_files w' = fs_files w"
  by (auto simp: publish_def Let_def)

lemma or_else_trim:
  "or_else (trim_or_undefined x) d f
     = (if x = None \<or> trim (the x) = [] then d else f (trim (the x)))"
  by (cases x) (simp_all add: or_else_def trim_or_undefined_def)

lemma finalize_AddedD:
  assumes "finalize env values category sourceType detected w = (Inr (Added dto), w')"
  shows "\<exists>meta d. validateAndGet env values = Some meta \<and> sourceType \<noteq> St_Url
           \<and> detected = Some d \<and> stage env category meta d w = (Inr (Added dto), w')"
proof (cases "validateAndGet env values")
  case None
  with assms show ?thesis
    by (simp add: finalize_def return_io_def)
next
  case (Some meta)
  show ?thesis
  proof (cases "sourceType = St_Url")
    case True
    with Some assms show ?thesis
      by (simp add: finalize_def bind_io_def toast_io_def)
  next
    case False
    show ?thesis
    proof (cases detected)
      case None
      with Some False assms show ?thesis
        by (simp add: finalize_def bind_io_def toast_io_def return_io_def)
    next
      case (Some d)
      with \<open>validateAndGet env values = Some meta\<close> False assms show ?thesis
        by (simp add: finalize_def)
    qed
  qed
qed

lemma stage_Added_document:
  assumes "stage env category meta d w = (Inr (Added dto), w')"
  shows "map_of (fs_files w') (join (modDir env) ''metadata.json'')
           = Some (metadata_document env category meta)"
proof -
  from assms obtain u1 w1 where
    "bind_io (write_preview env meta) (\<lambda>_.
       bind_io (try_catch (stage_payload env d)
                  (on_error env d)) (\<lambda>_.
       finish env category meta d)) w1 = (Inr (Added dto), w')"
    unfolding stage_def by (rule bind_io_InrE)
  then obtain u2 w2 where
    "bind_io (try_catch (stage_payload env d)
                (on_error env d)) (\<lambda>_.
       finish env category meta d) w2 = (Inr (Added dto), w')"
    by (rule bind_io_InrE)
  then obtain u3 w3 where "finish env category meta d w3 = (Inr (Added dto), w')"
    by (rule bind_io_InrE)
  then obtain u4 w4 where
    "bind_io (write_metadata env category meta (previewName (imageFile meta))) (\<lambda>_.
       publish env category meta) w4
     = (Inr (Added dto), w')"
    unfolding finish_def by (rule bind_io_InrE)
  then obtain u5 w5 where
    wr: "write_metadata env category meta (previewName (imageFile meta)) w4 = (Inr u5, w5)"
    and pu: "publish env category meta w5
               = (Inr (Added dto), w')"
    by (rule bind_io_InrE)
  from wr have "fs_files w5 = AList.update (join (modDir env) ''metadata.json'')
                               (metadata_document env category meta) (fs_files w4)"
    unfolding write_metadata_def writeText_def metadata_document_def by (rule writeFile_Inr)
  moreover from pu have "fs_files w' = fs_files w5"
    by (rule publish_files)
  ultimately show ?thesis
    by (simp add: AList.update_conv')
qed

text \<open>
  C9. After every run of \<open>finalize\<close> that ends with the mod added, the file
  \<open>metadata.json\<close> in the mod's directory holds the JSON text of an object with exactly the
  properties \<open>id\<close>, \<open>kind\<close> (the string \<open>local\<close>), \<open>name\<close>, \<open>author\<close>, \<open>link\<close>,
  \<open>description\<close>, \<open>category\<close>, \<open>createdAt\<close> (the clock's ISO string), \<open>preview\<close> (the name
  of the preview file) and \<open>_schema\<close> (the number 1). Its \<open>name\<close> is the name of the form,
  trimmed; its \<open>author\<close> is \<open>Unknown\<close> when the form has no author or only white space,
  and the trimmed author otherwise; \<open>link\<close> and \<open>description\<close> are \<open>null\<close> in the same
  cases and the trimmed strings otherwise.
\<close>

theorem metadata_document_written:
  assumes "finalize env values category sourceType detected w = (Inr (Added dto), w')"
  shows "map_of (fs_files w') (join (modDir env) ''metadata.json'')
         = Some (encode (JSON_stringify
             [(''id'', JString (''local-'' @ randomUUID env)),
              (''kind'', JString ''local''),
              (''name'', JString (trim (v_name values))),
              (''author'', JString (if v_author values = None \<or> trim (the (v_author values)) = []
                                    then ''Unknown'' else trim (the (v_author values)))),
              (''link'', if v_link values = None \<or> trim (the (v_link values)) = []
                         then JNull else JString (trim (the (v_link values)))),
              (''description'',
                 if v_description values = None \<or> trim (the (v_description values)) = []
                 then JNull else JString (trim (the (v_description values)))),
              (''category'', JString category),
              (''createdAt'', JString (toISOString env)),
              (''preview'', JString (previewName (v_imageFile values))),
              (''_schema'', JNumber 1)]))"
proof -
  from finalize_AddedD [OF assms] obtain meta d
    where v: "validateAndGet env values = Some meta"
      and s: "stage env category meta d w = (Inr (Added dto), w')"
    by (elim exE conjE)
  from v have meta: "meta = \<lparr>m_name = trim (v_name values),
                              m_author = trim_or_undefined (v_author values),
                              m_link = trim_or_undefined (v_link values),
                              m_description = trim_or_undefined (v_description values),
                              imageFile = v_imageFile values\<rparr>"
    by (simp add: validateAndGet_def split: if_splits)
  have "metadata_document env category meta
        = encode (JSON_stringify
             [(''id'', JString (''local-'' @ randomUUID env)),
              (''kind'', JString ''local''),
              (''name'', JString (trim (v_name values))),
              (''author'', JString (if v_author values = None \<or> trim (the (v_author values)) = []
                                    then ''Unknown'' else trim (the (v_author values)))),
              (''link'', if v_link values = None \<or> trim (the (v_link values)) = []
                         then JNull else JString (trim (the (v_link values)))),
              (''description'',
                 if v_description values = None \<or> trim (the (v_description values)) = []
                 then JNull else JString (trim (the (v_description values)))),
              (''category'', JString category),
              (''createdAt'', JString (toISOString env)),
              (''preview'', JString (previewName (v_imageFile values))),
              (''_schema'', JNumber 1)])"
    unfolding metadata_document_def metadata_def meta modId_def
    by (simp only: ModMetadata.simps or_else_trim if_distrib [of JString])
  with stage_Added_document [OF s] show ?thesis
    by simp
qed

lemma succeededD: "succeeded r \<Longrightarrow> \<exists>dto w'. r = (Inr (Added dto), w')"
  by (cases r) (auto simp: succeeded_def split: sum.splits outcome.splits)

theorem metadata_document_written_witness:
  "map_of (fs_files (snd (finalize env0 values0 ''Skins'' St_Folder_Vpk
                            (Some (Folder_Vpk [b_vpk, c_vpk] (Some ''a''))) world0)))
     [''data'', ''mods'', ''local-u1'', ''metadata.json'']
   = Some (encode (JSON_stringify
       [(''id'', JString ''local-u1''),
        (''kind'', JString ''local''),
        (''name'', JString ''Red Armor''),
        (''author'', JString ''Unknown''),
        (''link'', JNull),
        (''description'', JNull),
        (''category'', JString ''Skins''),
        (''createdAt'', JString ''2025-01-01T00:00:00.000Z''),
        (''preview'', JString ''preview.svg''),
        (''_schema'', JNumber 1)]))"
proof -
  let ?r = "finalize env0 values0 ''Skins'' St_Folder_Vpk
              (Some (Folder_Vpk [b_vpk, c_vpk] (Some ''a''))) world0"
  have 2: "St_Folder_Vpk \<noteq> St_Url"
    by simp
  have 4: "[b_vpk, c_vpk] \<noteq> []"
    by simp
  have 5: "\<forall>f \<in> set [b_vpk, c_vpk]. is_vpk (name f)"
    by (simp add: b_vpk_def c_vpk_def is_vpk_examples)
  from folder_staged [OF values0_valid 2 env0_quiet 4 5, where category = "''Skins''"
      and folderName = "Some ''a''"]
  have "succeeded ?r"
    by (rule conjunct1)
  then obtain dto w' where r: "?r = (Inr (Added dto), w')"
    using succeededD by blast
  have "map_of (fs_files w') (join (modDir env0) ''metadata.json'')
      = Some (encode (JSON_stringify
       [(''id'', JString ''local-u1''),
        (''kind'', JString ''local''),
        (''name'', JString ''Red Armor''),
        (''author'', JString ''Unknown''),
        (''link'', JNull),
        (''description'', JNull),
        (''category'', JString ''Skins''),
        (''createdAt'', JString ''2025-01-01T00:00:00.000Z''),
        (''preview'', JString ''preview.svg''),
        (''_schema'', JNumber 1)]))"
    using metadata_document_written [OF r]
    by (simp add: values0_def env0_def trim_def white_space_def previewName_def)
  then show ?thesis
    unfolding r env0_layout by (simp add: join_def)
qed

section \<open>Failing calls\<close>

lemma writeFile_Inl:
  "writeFile env p d w = (Inl e, w') \<Longrightarrow>
   e = Io_Error (Write_File p) \<and> fs_files w' = fs_files w \<and> toasts w' = toasts w"
  by (auto simp: writeFile_def bind_io_def fs_call_def split: if_splits)






text \<open>
  C3, as the code has it. The preview image is written outside the \<open>try\<close>: when that
  write fails, \<open>finalize\<close> throws the error of the write, the payload is not staged (the
  files on disk are those present after the directories were made) and nothing is added.
\<close>

theorem preview_failure_is_fatal:
  assumes "validateAndGet env values = Some meta"
      and "sourceType \<noteq> St_Url"
      and "make_dirs env w = (Inr (), w1)"
      and "write_preview env meta w1 = (Inl e, w2)"
  shows "finalize env values category sourceType (Some detected) w = (Inl e, w2)
         \<and> e = Io_Error (Write_File (join (modDir env) (previewName (imageFile meta))))
         \<and> fs_files w2 = fs_files w1
         \<and> \<not> succeeded (finalize env values category sourceType (Some detected) w)"
proof -
  have f: "finalize env values category sourceType (Some detected) w = (Inl e, w2)"
    using assms(3,4) by (simp add: finalize_stage [OF assms(1,2)] stage_def bind_io_def)
  from assms(4) have "e = Io_Error (Write_File (join (modDir env) (previewName (imageFile meta))))
      \<and> fs_files w2 = fs_files w1"
    by (cases "imageFile meta")
       (auto simp: write_preview_def writeBytes_def writeText_def dest: writeFile_Inl)
  with f show ?thesis
    by (simp add: succeeded_def)
qed

lemma pair_fstI: "fst r = a \<Longrightarrow> r = (a, snd r)"
  by (cases r) simp

lemma values1_valid: "validateAndGet env values1 = Some meta1"
  by (simp add: validateAndGet_def schema_def values1_def meta1_def trim_def white_space_def
        trim_or_undefined_def)

text \<open>
  C3 as stated fails: when the write of the preview image is rejected, \<open>finalize\<close> throws
  that error, no payload is staged (no file at all is on disk) and nothing is added.
\<close>

theorem preview_write_failure_aborts:
  "fst (finalize env_preview_fails values0 ''Skins'' St_Vpk (Some (Vpk skinpack_vpk)) world0)
     = Inl (Io_Error (Write_File [''data'', ''mods'', ''local-u1'', ''preview.svg'']))
   \<and> fs_files (snd (finalize env_preview_fails values0 ''Skins'' St_Vpk
                       (Some (Vpk skinpack_vpk)) world0)) = []
   \<and> \<not> succeeded (finalize env_preview_fails values0 ''Skins'' St_Vpk
                     (Some (Vpk skinpack_vpk)) world0)"
  by code_simp

theorem preview_failure_is_fatal_witness:
  "fst (finalize env_preview_fails values1 ''Skins'' St_Archive (Some (Archive bundle_zip)) world0)
     = Inl (Io_Error (Write_File [''data'', ''mods'', ''local-u1'', ''preview.jpg'']))
   \<and> fs_files (snd (finalize env_preview_fails values1 ''Skins'' St_Archive
                       (Some (Archive bundle_zip)) world0)) = []
   \<and> \<not> succeeded (finalize env_preview_fails values1 ''Skins'' St_Archive
                     (Some (Archive bundle_zip)) world0)"
proof -
  let ?E = env_preview_fails
  let ?w1 = "snd (make_dirs ?E world0)"
  let ?w2 = "snd (write_preview ?E meta1 ?w1)"
  let ?e = "Io_Error (Write_File [''data'', ''mods'', ''local-u1'', ''preview.jpg''])"
  have 2: "St_Archive \<noteq> St_Url"
    by simp
  have "fst (make_dirs ?E world0) = Inr ()"
    by code_simp
  then have 3: "make_dirs ?E world0 = (Inr (), ?w1)"
    by (rule pair_fstI)
  have "fst (write_preview ?E meta1 ?w1) = Inl ?e"
    by code_simp
  then have 4: "write_preview ?E meta1 ?w1 = (Inl ?e, ?w2)"
    by (rule pair_fstI)
  have 5: "fs_files ?w1 = []"
    by code_simp
  note t = preview_failure_is_fatal [OF values1_valid 2 3 4, where category = "''Skins''"
      and detected = "Archive bundle_zip"]
  from t have a: "fst (finalize ?E values1 ''Skins'' St_Archive (Some (Archive bundle_zip)) world0)
      = Inl ?e"
    by simp
  from t have "fs_files (snd (finalize ?E values1 ''Skins'' St_Archive
                                  (Some (Archive bundle_zip)) world0)) = fs_files ?w1"
    by simp
  with 5 have b: "fs_files (snd (finalize ?E values1 ''Skins'' St_Archive
                                  (Some (Archive bundle_zip)) world0)) = []"
    by simp
  from t have c: "\<not> succeeded (finalize ?E values1 ''Skins'' St_Archive
                                (Some (Archive bundle_zip)) world0)"
    by (elim conjE)
  from a b c show ?thesis
    by (intro conjI)
qed



end
